theory Spec2Isabelle
  imports Main
begin

section \<open>Hover provider: report records and the position matcher\<close>

text \<open>
  The report file written by the analysis process maps a source file path to a
  \<open>FileReport\<close>; each \<open>VariableData\<close> carries a type description, a variable
  name and the start and end of the occurrence. Positions are JavaScript numbers
  holding integers, modelled as \<open>int\<close>.
\<close>

record LineChar =
  line :: int
  char :: int

record Pos =
  pos_start :: LineChar
  pos_end :: LineChar

record VariableData =
  typeDescription :: string
  name :: string
  pos :: Pos

record FileReport =
  timestamp :: int
  data :: "VariableData list"

type_synonym ReporterFile = "string \<rightharpoonup> FileReport"

text \<open>The request: \<open>hoverParams.textDocument.uri\<close> and \<open>hoverParams.position\<close>.\<close>

record HoverParams =
  textDocument_uri :: string
  position_line :: int
  position_character :: int

record Hover =
  contents :: "string list"

text \<open>
  What the handler imports and does not define: the constant
  \<open>NO_CANCEL_OPERATIONS\<close> of shared/constants, \<open>JSON.parse\<close> (\<open>None\<close> when it
  throws), \<open>URI.parse(uri).fsPath\<close> and \<open>path.join\<close>. They are taken as
  parameters.
\<close>

record HoverLib =
  NO_CANCEL_OPERATIONS :: bool
  JSON_parse :: "string \<Rightarrow> ReporterFile option"
  fsPath :: "string \<Rightarrow> string"
  path_join :: "string \<Rightarrow> string \<Rightarrow> string"

text \<open>
  What one run of the handler observes of its environment, in the order of the
  source: the workspace folder, the cancellation token on entry, the token and
  \<open>promise.done\<close> at each periodic poll that the wait budget allows, the files
  on disk when the report is read, and the token after the read.
\<close>

record HoverEnv =
  workspaceFolder :: "string option"
  cancelAtEntry :: bool
  polls :: "(bool \<times> bool) list"
  files :: "string \<rightharpoonup> string"
  cancelAfterRead :: bool

datatype wait_result = cancel | checkDone

datatype hover_error = ReadFileError | JSONParseError

text \<open>The callback handed to \<open>waitPeriodical\<close> (lines 65 to 76).\<close>

definition pollCallback :: "bool \<Rightarrow> bool \<times> bool \<Rightarrow> wait_result option" where
  "pollCallback noCancel obs =
     (if \<not> noCancel \<and> fst obs then Some cancel
      else if snd obs then Some checkDone
      else None)"

text \<open>
  Modelled from the spec: \<open>waitPeriodical\<close> of shared/util is not among the
  sources. The spec has it poll at a fixed interval up to a total budget and
  yield the first non-null answer of the callback, or null when the budget is
  exceeded. The list holds one observation per poll within the budget.
\<close>

fun waitPeriodical :: "('o \<Rightarrow> 'r option) \<Rightarrow> 'o list \<Rightarrow> 'r option" where
  "waitPeriodical callback [] = None"
| "waitPeriodical callback (obs # rest) =
     (case callback obs of
        Some r \<Rightarrow> Some r
      | None \<Rightarrow> waitPeriodical callback rest)"

text \<open>The condition of the \<open>if\<close> inside the scan loop (lines 99 to 103).\<close>

definition matchesPosition :: "VariableData \<Rightarrow> HoverParams \<Rightarrow> bool" where
  "matchesPosition t hoverParams \<longleftrightarrow>
     line (pos_start (pos t)) = position_line hoverParams \<and>
     char (pos_start (pos t)) < position_character hoverParams \<and>
     char (pos_end (pos t)) > position_character hoverParams"

definition hoverOf :: "VariableData \<Rightarrow> Hover" where
  "hoverOf t = \<lparr>contents = [''PHPStan: `'' @ typeDescription t @ '' $'' @ name t @ ''`'']\<rparr>"

text \<open>The \<open>for ... of\<close> loop (lines 96 to 112): the first match returns.\<close>

fun scanRecords :: "VariableData list \<Rightarrow> HoverParams \<Rightarrow> Hover option" where
  "scanRecords [] hoverParams = None"
| "scanRecords (t # rest) hoverParams =
     (if matchesPosition t hoverParams then Some (hoverOf t)
      else scanRecords rest hoverParams)"

text \<open>
  The handler returned by \<open>createHoverProvider\<close>. A rejected \<open>fs.readFile\<close> or a
  throwing \<open>JSON.parse\<close> rejects the handler's promise (\<open>Inl\<close>); \<open>Inr None\<close> is
  the answer \<open>null\<close>. \<open>!workspaceFolder\<close> holds for \<open>null\<close> and for the empty
  string.
\<close>

definition createHoverProvider ::
  "HoverLib \<Rightarrow> HoverEnv \<Rightarrow> HoverParams \<Rightarrow> hover_error + Hover option" where
  "createHoverProvider lib env hoverParams =
     (case workspaceFolder env of
        None \<Rightarrow> Inr None
      | Some folder \<Rightarrow>
          if folder = [] \<or> (\<not> NO_CANCEL_OPERATIONS lib \<and> cancelAtEntry env) then Inr None
          else if waitPeriodical (pollCallback (NO_CANCEL_OPERATIONS lib)) (polls env)
                    \<noteq> Some checkDone then Inr None
          else
            (case files env (path_join lib folder ''reported.json'') of
               None \<Rightarrow> Inl ReadFileError
             | Some text \<Rightarrow>
                 (case JSON_parse lib text of
                    None \<Rightarrow> Inl JSONParseError
                  | Some reporterFile \<Rightarrow>
                      if \<not> NO_CANCEL_OPERATIONS lib \<and> cancelAfterRead env then Inr None
                      else
                        Inr (scanRecords
                               (case reporterFile (fsPath lib (textDocument_uri hoverParams)) of
                                  None \<Rightarrow> []
                                | Some report \<Rightarrow> data report)
                               hoverParams))))"

section \<open>Hover provider: the report registry\<close>

text \<open>\<open>Promise<FileReport | null>\<close> as the code really fills it: indexing the parsed
  object with a path it does not hold gives \<open>undefined\<close>.\<close>

datatype 'a js_value = Null | Undefined | Value 'a

record OperationEntry =
  reportPath :: string
  sourceFilePath :: string

text \<open>The two static maps of \<open>HoverProviderCheckHooks\<close>.\<close>

record HoverProviderCheckHooks =
  operationMap :: "string \<rightharpoonup> OperationEntry"
  reports :: "string \<rightharpoonup> FileReport js_value"

text \<open>The reservation made at the end of \<open>_getAutoloadFile\<close> (lines 186 to 189).\<close>

definition reserveReport ::
  "string \<Rightarrow> OperationEntry \<Rightarrow> HoverProviderCheckHooks \<Rightarrow> HoverProviderCheckHooks" where
  "reserveReport uri entry h = h\<lparr>operationMap := (operationMap h)(uri \<mapsto> entry)\<rparr>"

text \<open>
  \<open>_getFileReport\<close> up to its only suspension point (lines 130 to 134): the
  lookup and the deletion run before \<open>fs.readFile\<close> is awaited.
\<close>

definition getFileReport_begin ::
  "string \<Rightarrow> HoverProviderCheckHooks \<Rightarrow> OperationEntry option \<times> HoverProviderCheckHooks" where
  "getFileReport_begin uri h =
     (case operationMap h uri of
        None \<Rightarrow> (None, h)
      | Some match \<Rightarrow> (Some match, h\<lparr>operationMap := (operationMap h)(uri := None)\<rparr>))"

text \<open>The \<open>try\<close> block (lines 135 to 143); every exception ends in \<open>null\<close>.\<close>

definition getFileReport_read ::
  "HoverLib \<Rightarrow> (string \<rightharpoonup> string) \<Rightarrow> OperationEntry \<Rightarrow> FileReport js_value" where
  "getFileReport_read lib fs match =
     (case fs (reportPath match) of
        None \<Rightarrow> Null
      | Some file \<Rightarrow>
          (case JSON_parse lib file of
             None \<Rightarrow> Null
           | Some parsed \<Rightarrow>
               (case parsed (sourceFilePath match) of
                  None \<Rightarrow> Undefined
                | Some report \<Rightarrow> Value report)))"

definition getFileReport ::
  "HoverLib \<Rightarrow> (string \<rightharpoonup> string) \<Rightarrow> string \<Rightarrow> HoverProviderCheckHooks
     \<Rightarrow> FileReport js_value \<times> HoverProviderCheckHooks" where
  "getFileReport lib fs uri h =
     (case getFileReport_begin uri h of
        (None, h') \<Rightarrow> (Null, h')
      | (Some match, h') \<Rightarrow> (getFileReport_read lib fs match, h'))"

definition onCheckDone ::
  "HoverLib \<Rightarrow> (string \<rightharpoonup> string) \<Rightarrow> string \<Rightarrow> HoverProviderCheckHooks
     \<Rightarrow> HoverProviderCheckHooks" where
  "onCheckDone lib fs uri h =
     (case getFileReport lib fs uri h of
        (r, h') \<Rightarrow> h'\<lparr>reports := (reports h')(uri \<mapsto> r)\<rparr>)"

section \<open>Check manager\<close>

datatype checkType = FileCheck | ProjectCheck

text \<open>Modelled from the spec: \<open>OperationStatus\<close> of shared/statusBar is not among
  the sources; the spec gives the progress surface the statuses success, error
  and killed.\<close>

datatype OperationStatus = SUCCESS | ERROR | KILLED

text \<open>Modelled from the spec: \<open>ReturnResult\<close> of ./result is not among the
  sources. A result has a status and, on success, the errors per file;
  \<open>ReturnResult.killed()\<close> is the distinguished killed result.\<close>

datatype ReturnResult =
  ReturnResult (status: OperationStatus) (resultValue: "(string \<times> string list) list option")

definition killed :: ReturnResult where
  "killed = ReturnResult KILLED None"

text \<open>The fields of the configuration that the manager reads.\<close>

record Config =
  timeout :: nat
  projectTimeout :: nat
  suppressTimeoutMessage :: bool

text \<open>A \<open>PHPStanCheck\<close> object is identified by the order of its construction.\<close>

record CheckOperation =
  check :: nat
  hashes :: "string \<rightharpoonup> string"

text \<open>
  \<open>RecursivePromiseObject\<close>: a promise object made by \<open>createPromise\<close> is pending
  or resolved, once, with the next promise object or with \<open>null\<close>.
\<close>

datatype resolution = Pending | Resolved "nat option"

text \<open>What the manager does to its collaborators, in the order it does it.\<close>

datatype effect =
    NewCheck nat checkType
  | LogCheckStarted nat
  | StatusStart nat
  | CheckStarted nat bool
  | DisposeCheck nat
  | OnTimeoutNotice nat
  | StatusFinish nat OperationStatus
  | LogCheckCompleted nat
  | ClearReport

text \<open>
  The fields of \<open>PHPStanCheckManager\<close> and the objects they point to:
  \<open>promiseHeap\<close> holds the promise objects created so far (a promise object is
  its index), \<open>thenCallbacks\<close> the callbacks registered by
  \<open>operation.then(...)\<close> as pairs of the operation and the promise object the
  callback resolves, and \<open>opState\<close> an operation's settlement (\<open>Some True\<close>
  fulfilled, \<open>Some False\<close> rejected). The promise of one \<open>_checkShared\<close> call
  is identified with the check that call constructs.
\<close>

record manager =
  operation :: "CheckOperation option"
  filePromises :: "string \<rightharpoonup> nat"
  disposables :: "nat list"
  checksCreated :: nat
  promiseHeap :: "resolution list"
  thenCallbacks :: "(nat \<times> nat) list"
  opState :: "nat \<rightharpoonup> bool"
  effects :: "effect list"

definition init :: manager where
  "init = \<lparr>operation = None, filePromises = Map.empty, disposables = [],
            checksCreated = 0, promiseHeap = [], thenCallbacks = [],
            opState = Map.empty, effects = []\<rparr>"

definition PROJECT_CHECK_STR :: string where
  "PROJECT_CHECK_STR = ''__project__''"

subsection \<open>Running a check\<close>

text \<open>
  \<open>_checkShared\<close> up to its first \<open>await\<close> (lines 109 to 129). The hash function
  \<open>basicHash\<close> of shared/util is not among the sources and is a parameter;
  \<open>allContents\<close> is the snapshot \<open>documents.getAll()\<close>.
\<close>

definition checkShared_prep ::
  "(string \<Rightarrow> string) \<Rightarrow> checkType \<Rightarrow> (string \<rightharpoonup> string) \<Rightarrow> manager \<Rightarrow> manager" where
  "checkShared_prep basicHash ty allContents s =
     (let c = checksCreated s in
      s\<lparr>checksCreated := Suc c,
        operation := Some \<lparr>check = c, hashes = map_option basicHash \<circ> allContents\<rparr>,
        effects := effects s @ [NewCheck c ty, LogCheckStarted c, StatusStart c]\<rparr>)"

text \<open>
  Modelled from the spec: \<open>withTimeout\<close> of shared/util is not among the
  sources. The spec's TimeoutGuard races the operation against a timer: if the
  operation settles first its result is returned untouched; if the timer fires
  first \<open>onTimeout\<close> is invoked and its answer is the guard's result, and the
  guard does nothing else to the operation. An operation is described by when
  it settles and with what.
\<close>

datatype 'r running = Settles nat 'r | NeverSettles

definition withTimeout ::
  "'r running \<Rightarrow> nat \<Rightarrow> ('s \<Rightarrow> 'r \<times> 's) \<Rightarrow> 's \<Rightarrow> 'r \<times> 's" where
  "withTimeout promise deadline onTimeout s =
     (case promise of
        Settles t r \<Rightarrow> if t \<le> deadline then (r, s) else onTimeout s
      | NeverSettles \<Rightarrow> onTimeout s)"

text \<open>The \<open>onTimeout\<close> handler of \<open>_checkShared\<close> (lines 150 to 156).\<close>

definition onTimeoutHandler :: "nat \<Rightarrow> manager \<Rightarrow> ReturnResult \<times> manager" where
  "onTimeoutHandler c s =
     (killed,
      s\<lparr>effects := effects s @ [DisposeCheck c, OnTimeoutNotice c, StatusFinish c KILLED]\<rparr>)"

text \<open>\<open>_checkShared\<close> from the configuration read to its end (lines 139 to 171),
  for the check \<open>c\<close> it constructed.\<close>

definition checkShared_run ::
  "checkType \<Rightarrow> bool \<Rightarrow> Config \<Rightarrow> nat \<Rightarrow> ReturnResult running \<Rightarrow> manager
     \<Rightarrow> ReturnResult \<times> manager" where
  "checkShared_run ty applyErrors config c promise s =
     (let s1 = s\<lparr>effects := effects s @ [CheckStarted c applyErrors],
                  disposables := disposables s @ [c]\<rparr>
      in case withTimeout promise
                (if ty = FileCheck then timeout config else projectTimeout config)
                (onTimeoutHandler c) s1 of
           (result, s2) \<Rightarrow>
             (result,
              s2\<lparr>effects := effects s2 @ [StatusFinish c (status result), LogCheckCompleted c]\<rparr>))"

subsection \<open>The public operations\<close>

text \<open>\<open>checkProject\<close> up to its first suspension: lines 201 to 205 and the
  synchronous start of \<open>_checkShared\<close>.\<close>

definition checkProject :: "(string \<Rightarrow> string) \<Rightarrow> (string \<rightharpoonup> string) \<Rightarrow> manager \<Rightarrow> manager" where
  "checkProject basicHash allContents s =
     checkShared_prep basicHash ProjectCheck allContents
       (case operation s of
          Some op \<Rightarrow> s\<lparr>effects := effects s @ [DisposeCheck (check op)], operation := None\<rparr>
        | None \<Rightarrow> s)"

text \<open>
  Reading a property of the plain object \<open>hashes\<close> (built as \<open>{}\<close> at line 116 and
  filled by assignment): an own property gives its string; a name the object does
  not own is looked up on \<open>Object.prototype\<close>, whose members are functions (and,
  for \<open>__proto__\<close>, the prototype object itself); any other name gives
  \<open>undefined\<close>. An assignment to \<open>__proto__\<close> with a string creates no own
  property, so that name always reads the prototype. The names are those of the
  members of \<open>Object.prototype\<close> in the language standard and its annex B.
\<close>

definition objectPrototypeNames :: "string list" where
  "objectPrototypeNames =
     [''constructor'', ''__defineGetter__'', ''__defineSetter__'', ''hasOwnProperty'',
      ''__lookupGetter__'', ''__lookupSetter__'', ''isPrototypeOf'',
      ''propertyIsEnumerable'', ''toString'', ''valueOf'', ''__proto__'',
      ''toLocaleString'']"

datatype property = OwnString string | PrototypeMember | NoProperty

definition getProperty :: "(string \<rightharpoonup> string) \<Rightarrow> string \<Rightarrow> property" where
  "getProperty object key =
     (if key = ''__proto__'' then PrototypeMember
      else
        (case object key of
           Some v \<Rightarrow> OwnString v
         | None \<Rightarrow> if key \<in> set objectPrototypeNames then PrototypeMember else NoProperty))"

text \<open>
  \<open>checkProjectIfFileChanged\<close> (lines 212 to 229). \<open>!fileContent\<close> holds for
  \<open>undefined\<close> and for the empty string. In
  \<open>this._operation.hashes[uri] && this._operation.hashes[uri] !== basicHash(fileContent)\<close>
  the value read is truthy unless it is \<open>undefined\<close> or the empty string, and a
  member of the prototype is never identical to a string.
\<close>

definition checkProjectIfFileChanged ::
  "(string \<Rightarrow> string) \<Rightarrow> (string \<rightharpoonup> string) \<Rightarrow> string \<Rightarrow> string option \<Rightarrow> manager \<Rightarrow> manager" where
  "checkProjectIfFileChanged basicHash allContents uri fileContent s =
     (case operation s of
        None \<Rightarrow> checkProject basicHash allContents s
      | Some op \<Rightarrow>
          (case fileContent of
             None \<Rightarrow> s
           | Some content \<Rightarrow>
               if content = [] then s
               else
                 (case getProperty (hashes op) uri of
                    NoProperty \<Rightarrow> s
                  | PrototypeMember \<Rightarrow> checkProject basicHash allContents s
                  | OwnString h \<Rightarrow>
                      if h \<noteq> [] \<and> h \<noteq> basicHash content
                      then checkProject basicHash allContents s
                      else s)))"

definition dispose :: "manager \<Rightarrow> manager" where
  "dispose s =
     (case operation s of
        Some op \<Rightarrow> s\<lparr>effects := effects s @ [DisposeCheck (check op)], operation := None\<rparr>
      | None \<Rightarrow> s\<lparr>operation := None\<rparr>)"

definition clear :: "manager \<Rightarrow> manager" where
  "clear s = (let s' = dispose s in s'\<lparr>effects := effects s' @ [ClearReport]\<rparr>)"

subsection \<open>The per-key promise chain\<close>

text \<open>\<open>resolve\<close> of a promise object: only a pending promise changes.\<close>

definition resolvePromise :: "nat \<Rightarrow> nat option \<Rightarrow> resolution list \<Rightarrow> resolution list" where
  "resolvePromise p v heap =
     (if p < length heap \<and> heap ! p = Pending then heap[p := Resolved v] else heap)"

text \<open>
  \<open>_withRecursivePromise\<close> from the resumption after \<open>await createPromise()\<close> to
  its end (lines 187 to 196), which runs without suspension: the new promise
  object is allocated, the previous one of the key is resolved with it, the map
  is updated and the callback is registered on the operation.
\<close>

definition withRecursivePromise :: "string \<Rightarrow> nat \<Rightarrow> manager \<Rightarrow> manager" where
  "withRecursivePromise uri operation' s =
     (let promise = length (promiseHeap s);
          heap = (case filePromises s uri of
                    Some prevPromise \<Rightarrow> resolvePromise prevPromise (Some promise) (promiseHeap s)
                  | None \<Rightarrow> promiseHeap s)
      in s\<lparr>promiseHeap := heap @ [Pending],
           filePromises := (filePromises s)(uri \<mapsto> promise),
           thenCallbacks := thenCallbacks s @ [(operation', promise)]\<rparr>)"

text \<open>An operation's promise settles once.\<close>

definition settle :: "nat \<Rightarrow> bool \<Rightarrow> manager \<Rightarrow> manager" where
  "settle operation' ok s =
     (if opState s operation' = None then s\<lparr>opState := (opState s)(operation' \<mapsto> ok)\<rparr> else s)"

text \<open>The callback \<open>() => promise.resolve(null)\<close> runs only for a fulfilled
  operation it was registered on.\<close>

definition thenCallback :: "nat \<Rightarrow> manager \<Rightarrow> manager" where
  "thenCallback promise s =
     (if list_ex (\<lambda>(operation', p). p = promise \<and> opState s operation' = Some True)
           (thenCallbacks s)
      then s\<lparr>promiseHeap := resolvePromise promise None (promiseHeap s)\<rparr>
      else s)"


fun awaitLoop :: "nat \<Rightarrow> resolution list \<Rightarrow> nat \<Rightarrow> bool option" where
  "awaitLoop 0 heap obj = None"
| "awaitLoop (Suc fuel) heap obj =
     (if obj < length heap then
        (case heap ! obj of
           Pending \<Rightarrow> Some False
         | Resolved None \<Rightarrow> Some True
         | Resolved (Some next) \<Rightarrow> awaitLoop fuel heap next)
      else Some False)"

definition getFilePromise_returned :: "manager \<Rightarrow> nat option \<Rightarrow> bool" where
  "getFilePromise_returned s obj =
     (case obj of
        None \<Rightarrow> True
      | Some p \<Rightarrow> awaitLoop (length (promiseHeap s)) (promiseHeap s) p = Some True)"

subsection \<open>Interleavings\<close>

text \<open>
  The manager runs on one thread; between two suspension points a piece of code
  runs alone. An execution is a sequence of such pieces: the public operations
  up to their first suspension, the second half of a \<open>_checkShared\<close> call, the
  resumption of a \<open>_withRecursivePromise\<close> call, the settlement of an
  operation's promise and the run of a registered callback.
\<close>

datatype action =
    CheckProject "string \<rightharpoonup> string"
  | CheckProjectIfFileChanged "string \<rightharpoonup> string" string "string option"
  | Clear
  | Dispose
  | RunCheck checkType bool Config nat "ReturnResult running"
  | Chain string nat
  | Fulfil nat
  | Reject nat
  | ThenCallback nat

fun step :: "(string \<Rightarrow> string) \<Rightarrow> action \<Rightarrow> manager \<Rightarrow> manager" where
  "step basicHash (CheckProject allContents) s = checkProject basicHash allContents s"
| "step basicHash (CheckProjectIfFileChanged allContents uri fileContent) s =
     checkProjectIfFileChanged basicHash allContents uri fileContent s"
| "step basicHash Clear s = clear s"
| "step basicHash Dispose s = dispose s"
| "step basicHash (RunCheck ty applyErrors config c promise) s =
     snd (checkShared_run ty applyErrors config c promise s)"
| "step basicHash (Chain uri operation') s = withRecursivePromise uri operation' s"
| "step basicHash (Fulfil operation') s = settle operation' True s"
| "step basicHash (Reject operation') s = settle operation' False s"
| "step basicHash (ThenCallback promise) s = thenCallback promise s"

definition run :: "(string \<Rightarrow> string) \<Rightarrow> action list \<Rightarrow> manager \<Rightarrow> manager" where
  "run basicHash acts s = foldl (\<lambda>s a. step basicHash a s) s acts"

text \<open>The operations chained on a key by a sequence of actions, in order.\<close>

fun chainedOn :: "string \<Rightarrow> action \<Rightarrow> nat option" where
  "chainedOn uri (Chain k operation') = (if k = uri then Some operation' else None)"
| "chainedOn uri _ = None"

definition chained :: "string \<Rightarrow> action list \<Rightarrow> nat list" where
  "chained uri acts = List.map_filter (chainedOn uri) acts"

text \<open>The runners alive after a log of effects, and whether at every moment of
  the log at most one was.\<close>

fun trackEffect :: "nat list \<Rightarrow> effect \<Rightarrow> nat list" where
  "trackEffect alive (NewCheck c ty) = c # alive"
| "trackEffect alive (DisposeCheck c) = removeAll c alive"
| "trackEffect alive _ = alive"

definition activeRunners :: "effect list \<Rightarrow> nat list" where
  "activeRunners log = foldl trackEffect [] log"

section \<open>Invariants of the reachable states\<close>

text \<open>The hashes of an active operation are those of some snapshot of documents.\<close>

definition hashesStored :: "(string \<Rightarrow> string) \<Rightarrow> manager \<Rightarrow> bool" where
  "hashesStored basicHash s \<longleftrightarrow>
     (case operation s of
        None \<Rightarrow> True
      | Some op \<Rightarrow> \<exists>docs. hashes op = map_option basicHash \<circ> docs)"

text \<open>Whether at every moment of a log of effects, started with the given runners
  alive, at most one runner is alive.\<close>

fun singleFlight :: "nat list \<Rightarrow> effect list \<Rightarrow> bool" where
  "singleFlight alive [] = (length alive \<le> 1)"
| "singleFlight alive (e # log) = (length alive \<le> 1 \<and> singleFlight (trackEffect alive e) log)"

text \<open>What every reachable state satisfies: the log never had two runners alive,
  and a runner still alive is the one in the operation slot.\<close>

definition runnersInv :: "manager \<Rightarrow> bool" where
  "runnersInv s \<longleftrightarrow>
     singleFlight [] (effects s) \<and>
     (activeRunners (effects s) = [] \<or>
      (\<exists>op. operation s = Some op \<and> activeRunners (effects s) = [check op]))"

text \<open>What every reachable state satisfies of the promise objects: callbacks and
  map entries point to existing promise objects, two keys never share one, and a
  promise object is only ever resolved with a younger one, so that a chain of
  promise objects has no cycle.\<close>

definition gateWf :: "manager \<Rightarrow> bool" where
  "gateWf s \<longleftrightarrow>
     (\<forall>operation' q. (operation', q) \<in> set (thenCallbacks s) \<longrightarrow> q < length (promiseHeap s)) \<and>
     (\<forall>k p. filePromises s k = Some p \<longrightarrow> p < length (promiseHeap s)) \<and>
     (\<forall>k k' p. filePromises s k = Some p \<longrightarrow> filePromises s k' = Some p \<longrightarrow> k = k') \<and>
     (\<forall>p q. p < length (promiseHeap s) \<longrightarrow> promiseHeap s ! p = Resolved (Some q) \<longrightarrow>
            p < q \<and> q < length (promiseHeap s))"


section \<open>The interval of a record as the spec words it\<close>

text \<open>
  The spec calls the span of a record a half-open interval, its start position
  included and its end excluded. This is that reading, with positions ordered by
  line and then by char; it is compared with \<open>matchesPosition\<close>, which is what the
  source computes.
\<close>

definition claimedContains :: "VariableData \<Rightarrow> HoverParams \<Rightarrow> bool" where
  "claimedContains t hoverParams \<longleftrightarrow>
     (line (pos_start (pos t)) < position_line hoverParams \<or>
      line (pos_start (pos t)) = position_line hoverParams \<and>
      char (pos_start (pos t)) \<le> position_character hoverParams) \<and>
     (position_line hoverParams < line (pos_end (pos t)) \<or>
      position_line hoverParams = line (pos_end (pos t)) \<and>
      position_character hoverParams < char (pos_end (pos t)))"

section \<open>Concrete scenarios\<close>

text \<open>The report file of the spec's scenario, and what a hover request for
  \<open>/src/a.php\<close> meets when the check has been observed done at the second poll.\<close>

definition scenarioRecord :: VariableData where
  "scenarioRecord =
     \<lparr>typeDescription = ''int'', name = ''x'',
      pos = \<lparr>pos_start = \<lparr>line = 2, char = 4\<rparr>, pos_end = \<lparr>line = 2, char = 6\<rparr>\<rparr>\<rparr>"

definition scenarioFile :: ReporterFile where
  "scenarioFile = [''/src/a.php'' \<mapsto> \<lparr>timestamp = 1, data = [scenarioRecord]\<rparr>]"

definition scenarioLib :: HoverLib where
  "scenarioLib =
     \<lparr>NO_CANCEL_OPERATIONS = False,
      JSON_parse = (\<lambda>text. if text = ''report'' then Some scenarioFile else None),
      fsPath = drop 7,
      path_join = (\<lambda>a b. a @ ''/'' @ b)\<rparr>"

definition scenarioEnv :: HoverEnv where
  "scenarioEnv =
     \<lparr>workspaceFolder = Some ''/src'', cancelAtEntry = False,
      polls = [(False, False), (False, True)],
      files = [''/src/reported.json'' \<mapsto> ''report''],
      cancelAfterRead = False\<rparr>"

definition scenarioQuery :: "int \<Rightarrow> int \<Rightarrow> HoverParams" where
  "scenarioQuery l c =
     \<lparr>textDocument_uri = ''file:///src/a.php'', position_line = l, position_character = c\<rparr>"

definition multiLineRecord :: VariableData where
  "multiLineRecord =
     \<lparr>typeDescription = ''array'', name = ''rows'',
      pos = \<lparr>pos_start = \<lparr>line = 2, char = 4\<rparr>, pos_end = \<lparr>line = 5, char = 9\<rparr>\<rparr>\<rparr>"

text \<open>A reservation for \<open>/src/a.php\<close> and the disk that holds its report.\<close>

definition scenarioHooks :: HoverProviderCheckHooks where
  "scenarioHooks =
     reserveReport ''file:///src/a.php''
       \<lparr>reportPath = ''/tmp/x/reported.json'', sourceFilePath = ''/src/a.php''\<rparr>
       \<lparr>operationMap = Map.empty, reports = Map.empty\<rparr>"

definition scenarioDisk :: "string \<rightharpoonup> string" where
  "scenarioDisk = [''/tmp/x/reported.json'' \<mapsto> ''report'']"

text \<open>The documents of the spec's scenario, a hash function that never yields
  the empty string, and a configuration.\<close>

definition scenarioHash :: "string \<Rightarrow> string" where
  "scenarioHash content = ''#'' @ content"

definition scenarioDocs :: "string \<rightharpoonup> string" where
  "scenarioDocs = [''a.php'' \<mapsto> ''X'', ''b.php'' \<mapsto> ''Y'']"

definition scenarioConfig :: Config where
  "scenarioConfig = \<lparr>timeout = 1000, projectTimeout = 5000, suppressTimeoutMessage = False\<rparr>"




section \<open>Properties of the hover provider\<close>

lemmas scenario_defs = scenarioRecord_def scenarioFile_def scenarioLib_def scenarioEnv_def scenarioQuery_def

text \<open>
  Against claim C7 as it is stated: the record of the scenario starts at line 2,
  char 4 and ends at line 2, char 6. With the start inclusive the position
  line 2, char 4 lies in its interval, yet the handler answers \<open>null\<close> there: the
  comparison with the start is strict.
\<close>

theorem hover_start_char_counterexample:
  "claimedContains scenarioRecord (scenarioQuery 2 4) \<and>
   createHoverProvider scenarioLib scenarioEnv (scenarioQuery 2 4) = Inr None"
  by (simp add: claimedContains_def scenario_defs createHoverProvider_def pollCallback_def
        matchesPosition_def)

text \<open>
  Claim C7, amended: after the check is observed done (and the report is read
  and no cancellation is observed), the hover query returns the first record of
  the queried file whose start line equals the query line and whose chars
  satisfy start char < query char < end char: the char interval is open at both
  ends. For the record from line 2, char 4 to line 2, char 6, a query at char 5
  returns it and queries at char 6 and at char 4 return no match.
\<close>

theorem hover_first_match:
  assumes "workspaceFolder env = Some folder" and "folder \<noteq> []"
    and "NO_CANCEL_OPERATIONS lib \<or> \<not> cancelAtEntry env"
    and "waitPeriodical (pollCallback (NO_CANCEL_OPERATIONS lib)) (polls env) = Some checkDone"
    and "files env (path_join lib folder ''reported.json'') = Some content"
    and "JSON_parse lib content = Some reporterFile"
    and "NO_CANCEL_OPERATIONS lib \<or> \<not> cancelAfterRead env"
    and "reporterFile (fsPath lib (textDocument_uri hoverParams)) = Some report"
  shows "createHoverProvider lib env hoverParams =
           Inr (map_option hoverOf
                  (find (\<lambda>t. line (pos_start (pos t)) = position_line hoverParams \<and>
                              char (pos_start (pos t)) < position_character hoverParams \<and>
                              position_character hoverParams < char (pos_end (pos t)))
                        (data report)))"
proof -
  have "scanRecords ts hoverParams =
          map_option hoverOf
            (find (\<lambda>t. line (pos_start (pos t)) = position_line hoverParams \<and>
                        char (pos_start (pos t)) < position_character hoverParams \<and>
                        position_character hoverParams < char (pos_end (pos t))) ts)" for ts
    by (induction ts) (simp_all add: matchesPosition_def)
  with assms show ?thesis
    by (auto simp: createHoverProvider_def)
qed

theorem hover_first_match_witness:
  "createHoverProvider scenarioLib scenarioEnv (scenarioQuery 2 5) =
     Inr (Some \<lparr>contents = [''PHPStan: `int $x`'']\<rparr>) \<and>
   createHoverProvider scenarioLib scenarioEnv (scenarioQuery 2 6) = Inr None \<and>
   createHoverProvider scenarioLib scenarioEnv (scenarioQuery 2 4) = Inr None"
proof -
  have h: "createHoverProvider scenarioLib scenarioEnv (scenarioQuery 2 c) =
           Inr (map_option hoverOf
                  (find (\<lambda>t. line (pos_start (pos t)) = position_line (scenarioQuery 2 c) \<and>
                              char (pos_start (pos t)) < position_character (scenarioQuery 2 c) \<and>
                              position_character (scenarioQuery 2 c) < char (pos_end (pos t)))
                        (data \<lparr>timestamp = 1, data = [scenarioRecord]\<rparr>)))" for c
    by (rule hover_first_match [where folder = "''/src''" and content = "''report''"
          and reporterFile = scenarioFile])
       (simp_all add: scenario_defs pollCallback_def)
  show ?thesis
    by (simp add: h) (simp add: scenario_defs hoverOf_def)
qed

text \<open>
  Claim C9: the matcher compares the query line with the start line of a record
  only. A match needs the start line to equal the query line, the end line of a
  record has no influence on the match, and whatever the scan returns comes from
  a record that starts on the query line.
\<close>

theorem matcher_start_line_only:
  "(matchesPosition t hoverParams \<longrightarrow> line (pos_start (pos t)) = position_line hoverParams) \<and>
   matchesPosition (t\<lparr>pos := (pos t)\<lparr>pos_end := (pos_end (pos t))\<lparr>line := l\<rparr>\<rparr>\<rparr>) hoverParams
     = matchesPosition t hoverParams \<and>
   (scanRecords ts hoverParams = Some h \<longrightarrow>
      (\<exists>t \<in> set ts. line (pos_start (pos t)) = position_line hoverParams \<and> h = hoverOf t))"
proof -
  have "scanRecords ts hoverParams = Some h \<longrightarrow>
      (\<exists>t \<in> set ts. line (pos_start (pos t)) = position_line hoverParams \<and> h = hoverOf t)"
    by (induction ts) (auto simp: matchesPosition_def)
  then show ?thesis by (simp add: matchesPosition_def)
qed

theorem matcher_start_line_only_witness:
  "matchesPosition multiLineRecord (scenarioQuery 2 5) \<and>
   line (pos_start (pos multiLineRecord)) = position_line (scenarioQuery 2 5) \<and>
   \<not> matchesPosition multiLineRecord (scenarioQuery 3 5) \<and>
   scanRecords [multiLineRecord] (scenarioQuery 2 5) = Some (hoverOf multiLineRecord) \<and>
   (\<exists>t \<in> set [multiLineRecord]. line (pos_start (pos t)) = position_line (scenarioQuery 2 5)
       \<and> hoverOf multiLineRecord = hoverOf t)"
proof -
  have m: "matchesPosition multiLineRecord (scenarioQuery 2 5)"
    by (simp add: matchesPosition_def multiLineRecord_def scenarioQuery_def)
  have s: "scanRecords [multiLineRecord] (scenarioQuery 2 5) = Some (hoverOf multiLineRecord)"
    by (simp add: m)
  have n: "\<not> matchesPosition multiLineRecord (scenarioQuery 3 5)"
    by (simp add: matchesPosition_def multiLineRecord_def scenarioQuery_def)
  from matcher_start_line_only [of multiLineRecord "scenarioQuery 2 5" 0 "[multiLineRecord]"
      "hoverOf multiLineRecord"] m s n
  show ?thesis by blast
qed

text \<open>
  Claim C10: when the wait has answered \<open>checkDone\<close> and the report file has been
  read and parsed, a cancellation observed at the check that follows the read
  (the token is consulted there only if \<open>NO_CANCEL_OPERATIONS\<close> is false) makes
  the handler answer \<open>null\<close>, whatever the records hold.
\<close>

theorem cancel_after_read_returns_null:
  assumes "workspaceFolder env = Some folder" and "folder \<noteq> []"
    and "waitPeriodical (pollCallback (NO_CANCEL_OPERATIONS lib)) (polls env) = Some checkDone"
    and "files env (path_join lib folder ''reported.json'') = Some content"
    and "JSON_parse lib content = Some reporterFile"
    and "\<not> NO_CANCEL_OPERATIONS lib" and "cancelAfterRead env"
  shows "createHoverProvider lib env hoverParams = Inr None"
  using assms by (simp add: createHoverProvider_def)

theorem cancel_after_read_returns_null_witness:
  "createHoverProvider scenarioLib (scenarioEnv\<lparr>cancelAfterRead := True\<rparr>) (scenarioQuery 2 5)
     = Inr None \<and>
   createHoverProvider scenarioLib scenarioEnv (scenarioQuery 2 5)
     = Inr (Some \<lparr>contents = [''PHPStan: `int $x`'']\<rparr>)"
proof -
  have "createHoverProvider scenarioLib (scenarioEnv\<lparr>cancelAfterRead := True\<rparr>)
          (scenarioQuery 2 5) = Inr None"
    by (rule cancel_after_read_returns_null [where folder = "''/src''" and content = "''report''"
          and reporterFile = scenarioFile])
       (simp_all add: scenario_defs pollCallback_def)
  moreover have "createHoverProvider scenarioLib scenarioEnv (scenarioQuery 2 5)
     = Inr (Some \<lparr>contents = [''PHPStan: `int $x`'']\<rparr>)"
    by (simp add: scenario_defs createHoverProvider_def pollCallback_def matchesPosition_def
          hoverOf_def)
  ultimately show ?thesis by simp
qed

section \<open>Properties of the report registry\<close>

text \<open>
  Claim C6: consuming the report of a key without a reservation answers \<open>null\<close>
  and changes nothing. With a reservation, the reservation is removed before the
  file is read (the removal belongs to the part of the function that runs before
  its suspension), a missing file and a parse failure answer \<open>null\<close>, and a
  parsed file answers the record stored under the reserved source path. The
  second of two consume calls for a key answers \<open>null\<close>, also when it starts
  while the first is still reading.
\<close>

theorem getFileReport_consume:
  "(operationMap h uri = None \<longrightarrow> getFileReport lib fs uri h = (Null, h)) \<and>
   (\<forall>match. operationMap h uri = Some match \<longrightarrow>
      getFileReport_begin uri h = (Some match, h\<lparr>operationMap := (operationMap h)(uri := None)\<rparr>) \<and>
      snd (getFileReport lib fs uri h) = h\<lparr>operationMap := (operationMap h)(uri := None)\<rparr> \<and>
      (fs (reportPath match) = None \<longrightarrow> fst (getFileReport lib fs uri h) = Null) \<and>
      (\<forall>file. fs (reportPath match) = Some file \<longrightarrow>
         (JSON_parse lib file = None \<longrightarrow> fst (getFileReport lib fs uri h) = Null) \<and>
         (\<forall>parsed report. JSON_parse lib file = Some parsed \<longrightarrow>
            parsed (sourceFilePath match) = Some report \<longrightarrow>
            fst (getFileReport lib fs uri h) = Value report))) \<and>
   fst (getFileReport lib fs' uri (snd (getFileReport lib fs uri h))) = Null \<and>
   fst (getFileReport lib fs' uri (snd (getFileReport_begin uri h))) = Null"
  by (auto simp: getFileReport_def getFileReport_begin_def getFileReport_read_def
        split: option.splits)

theorem getFileReport_consume_witness:
  "operationMap scenarioHooks ''file:///src/a.php''
     = Some \<lparr>reportPath = ''/tmp/x/reported.json'', sourceFilePath = ''/src/a.php''\<rparr> \<and>
   fst (getFileReport scenarioLib scenarioDisk ''file:///src/a.php'' scenarioHooks)
     = Value \<lparr>timestamp = 1, data = [scenarioRecord]\<rparr> \<and>
   operationMap (snd (getFileReport scenarioLib scenarioDisk ''file:///src/a.php'' scenarioHooks))
     ''file:///src/a.php'' = None \<and>
   fst (getFileReport scenarioLib Map.empty ''file:///src/a.php'' scenarioHooks) = Null \<and>
   fst (getFileReport scenarioLib scenarioDisk ''file:///src/a.php''
          (snd (getFileReport scenarioLib scenarioDisk ''file:///src/a.php'' scenarioHooks)))
     = Null \<and>
   getFileReport scenarioLib scenarioDisk ''file:///src/b.php'' scenarioHooks
     = (Null, scenarioHooks)"
proof -
  let ?m = "\<lparr>reportPath = ''/tmp/x/reported.json'', sourceFilePath = ''/src/a.php''\<rparr>"
  let ?u = "''file:///src/a.php''"
  have r: "operationMap scenarioHooks ?u = Some ?m"
    by (simp add: scenarioHooks_def reserveReport_def)
  have nb: "operationMap scenarioHooks ''file:///src/b.php'' = None"
    by (simp add: scenarioHooks_def reserveReport_def)
  have d: "scenarioDisk (reportPath ?m) = Some ''report''"
    by (simp add: scenarioDisk_def)
  have p: "JSON_parse scenarioLib ''report'' = Some scenarioFile"
    by (simp add: scenarioLib_def)
  have f: "scenarioFile (sourceFilePath ?m) = Some \<lparr>timestamp = 1, data = [scenarioRecord]\<rparr>"
    by (simp add: scenarioFile_def)
  note c = getFileReport_consume [of scenarioHooks ?u scenarioLib scenarioDisk scenarioDisk]
  note e = getFileReport_consume [of scenarioHooks ?u scenarioLib Map.empty scenarioDisk]
  note b = getFileReport_consume [of scenarioHooks "''file:///src/b.php''" scenarioLib
      scenarioDisk scenarioDisk]
  have 1: "fst (getFileReport scenarioLib scenarioDisk ?u scenarioHooks)
             = Value \<lparr>timestamp = 1, data = [scenarioRecord]\<rparr>"
    using c r d p f by blast
  have 2: "snd (getFileReport scenarioLib scenarioDisk ?u scenarioHooks)
             = scenarioHooks\<lparr>operationMap := (operationMap scenarioHooks)(?u := None)\<rparr>"
    using c r by blast
  have 3: "fst (getFileReport scenarioLib Map.empty ?u scenarioHooks) = Null"
    using e r by simp
  have 4: "fst (getFileReport scenarioLib scenarioDisk ?u
                  (snd (getFileReport scenarioLib scenarioDisk ?u scenarioHooks))) = Null"
    using c by blast
  have 5: "getFileReport scenarioLib scenarioDisk ''file:///src/b.php'' scenarioHooks
             = (Null, scenarioHooks)"
    using b nb by blast
  show ?thesis
    using r 1 3 4 5 by (simp add: 2)
qed

section \<open>Properties of the check manager\<close>

lemma run_Nil: "run basicHash [] s = s"
  by (simp add: run_def)

lemma run_snoc: "run basicHash (acts @ [a]) s = step basicHash a (run basicHash acts s)"
  by (simp add: run_def)

lemma run_Cons: "run basicHash (a # acts) s = run basicHash acts (step basicHash a s)"
  by (simp add: run_def)


lemma checkProject_hashes:
  "\<exists>c. operation (checkProject basicHash docs s)
         = Some \<lparr>check = c, hashes = map_option basicHash \<circ> docs\<rparr>"
  by (simp add: checkProject_def checkShared_prep_def Let_def)

lemma hashesStored_checkProject: "hashesStored basicHash (checkProject basicHash docs s)"
  by (auto simp: hashesStored_def checkProject_def checkShared_prep_def Let_def)

lemma hashesStored_step:
  "hashesStored basicHash s \<Longrightarrow> hashesStored basicHash (step basicHash a s)"
proof (cases a)
  case (CheckProject docs)
  then show ?thesis by (simp add: hashesStored_checkProject)
next
  case (CheckProjectIfFileChanged docs uri fileContent)
  assume "hashesStored basicHash s"
  then show ?thesis
    using hashesStored_checkProject [of basicHash docs s]
    by (simp add: CheckProjectIfFileChanged checkProjectIfFileChanged_def
        split: option.splits property.splits)
next
  case (RunCheck ty applyErrors config c promise)
  assume "hashesStored basicHash s"
  then show ?thesis
    by (simp add: RunCheck hashesStored_def checkShared_run_def withTimeout_def
        onTimeoutHandler_def Let_def split: running.splits option.splits)
qed (auto simp: hashesStored_def clear_def dispose_def withRecursivePromise_def settle_def
       thenCallback_def Let_def split: option.splits)

lemma hashesStored_run: "hashesStored basicHash (run basicHash acts init)"
proof (induction acts rule: rev_induct)
  case Nil
  show ?case by (simp add: run_Nil hashesStored_def init_def)
next
  case (snoc a acts)
  then show ?case by (simp add: run_snoc hashesStored_step)
qed

lemma checkProject_changes: "checkProject basicHash docs s \<noteq> s"
proof
  assume "checkProject basicHash docs s = s"
  then have "checksCreated (checkProject basicHash docs s) = checksCreated s" by simp
  then show False
    by (simp add: checkProject_def checkShared_prep_def Let_def split: option.splits)
qed


text \<open>
  For a uri that is not the name of a member of \<open>Object.prototype\<close> the code does
  what the claim says: in a state the manager can reach, with an operation active
  and a non-empty content, \<open>checkProjectIfFileChanged\<close> leaves the manager as it
  is (no check is started) when the operation holds no hash for the uri or holds
  the hash of the content, and does what \<open>checkProject\<close> does, which always
  starts a check, when it holds a different hash. The hash is a digest:
  \<open>basicHash\<close> never yields the empty string, the one stored value that the
  truthiness test of the source would take for an absent one.
\<close>

theorem checkProjectIfFileChanged_compares_hash:
  assumes digest: "\<forall>c. basicHash c \<noteq> []"
    and reach: "s = run basicHash acts init"
    and active: "operation s = Some op"
    and content: "content \<noteq> []"
    and own: "uri \<notin> set objectPrototypeNames"
  shows "(hashes op uri = None \<or> hashes op uri = Some (basicHash content) \<longrightarrow>
            checkProjectIfFileChanged basicHash docs uri (Some content) s = s) \<and>
         (\<forall>h. hashes op uri = Some h \<and> h \<noteq> basicHash content \<longrightarrow>
            checkProjectIfFileChanged basicHash docs uri (Some content) s
              = checkProject basicHash docs s) \<and>
         checkProject basicHash docs s \<noteq> s"
proof -
  have "hashesStored basicHash s"
    using reach by (simp add: hashesStored_run)
  with active obtain stored where st: "hashes op = map_option basicHash \<circ> stored"
    by (auto simp: hashesStored_def)
  have nonempty: "h \<noteq> []" if "hashes op uri = Some h" for h
    using that st digest by auto
  from own have np: "uri \<noteq> ''__proto__''"
    by (auto simp: objectPrototypeNames_def)
  have look: "getProperty (hashes op) uri
                = (case hashes op uri of None \<Rightarrow> NoProperty | Some h \<Rightarrow> OwnString h)"
    using own np by (simp add: getProperty_def split: option.splits)
  show ?thesis
    using active content nonempty checkProject_changes [of basicHash docs s]
    by (auto simp: checkProjectIfFileChanged_def look split: option.splits)
qed

theorem checkProjectIfFileChanged_compares_hash_witness:
  "operation (run scenarioHash [CheckProject scenarioDocs] init)
     = Some \<lparr>check = 0, hashes = map_option scenarioHash \<circ> scenarioDocs\<rparr> \<and>
   checkProjectIfFileChanged scenarioHash scenarioDocs ''a.php'' (Some ''X'')
       (run scenarioHash [CheckProject scenarioDocs] init)
     = run scenarioHash [CheckProject scenarioDocs] init \<and>
   checkProjectIfFileChanged scenarioHash scenarioDocs ''c.php'' (Some ''W'')
       (run scenarioHash [CheckProject scenarioDocs] init)
     = run scenarioHash [CheckProject scenarioDocs] init \<and>
   checkProjectIfFileChanged scenarioHash scenarioDocs ''a.php'' (Some ''Z'')
       (run scenarioHash [CheckProject scenarioDocs] init)
     = checkProject scenarioHash scenarioDocs (run scenarioHash [CheckProject scenarioDocs] init) \<and>
   checkProject scenarioHash scenarioDocs (run scenarioHash [CheckProject scenarioDocs] init)
     \<noteq> run scenarioHash [CheckProject scenarioDocs] init"
proof -
  let ?s = "run scenarioHash [CheckProject scenarioDocs] init"
  let ?op = "\<lparr>check = 0, hashes = map_option scenarioHash \<circ> scenarioDocs\<rparr>"
  have d: "\<forall>c. scenarioHash c \<noteq> []" by (simp add: scenarioHash_def)
  have a: "operation ?s = Some ?op"
    by (simp add: run_def checkProject_def checkShared_prep_def init_def)
  have hx: "hashes ?op ''a.php'' = Some (scenarioHash ''X'')"
    by (simp add: scenarioDocs_def)
  have hz: "scenarioHash ''X'' \<noteq> scenarioHash ''Z''" by (simp add: scenarioHash_def)
  have hc: "hashes ?op ''c.php'' = None" by (simp add: scenarioDocs_def)
  have pa: "''a.php'' \<notin> set objectPrototypeNames"
    by (simp add: objectPrototypeNames_def)
  have pc: "''c.php'' \<notin> set objectPrototypeNames"
    by (simp add: objectPrototypeNames_def)
  have nx: "''X'' \<noteq> []" and nz: "''Z'' \<noteq> []" and nw: "''W'' \<noteq> []"
    by simp_all
  note x = checkProjectIfFileChanged_compares_hash [OF d refl a nx pa, of scenarioDocs]
  note z = checkProjectIfFileChanged_compares_hash [OF d refl a nz pa, of scenarioDocs]
  note w = checkProjectIfFileChanged_compares_hash [OF d refl a nw pc, of scenarioDocs]
  have 1: "checkProjectIfFileChanged scenarioHash scenarioDocs ''a.php'' (Some ''X'') ?s = ?s"
    using x hx by blast
  have 2: "checkProjectIfFileChanged scenarioHash scenarioDocs ''c.php'' (Some ''W'') ?s = ?s"
    using w hc by blast
  have 3: "checkProjectIfFileChanged scenarioHash scenarioDocs ''a.php'' (Some ''Z'') ?s
             = checkProject scenarioHash scenarioDocs ?s"
    using z hx hz by blast
  have 4: "checkProject scenarioHash scenarioDocs ?s \<noteq> ?s"
    using x by blast
  show ?thesis using a 1 2 3 4 by simp
qed

text \<open>
  Against claim C4 as it is stated: in the initial state no operation is active,
  and a call with content \<open>undefined\<close> constructs and installs check 0.
\<close>

theorem undefined_content_counterexample:
  "operation init = None \<and>
   effects (checkProjectIfFileChanged scenarioHash scenarioDocs ''a.php'' None init)
     = [NewCheck 0 ProjectCheck, LogCheckStarted 0, StatusStart 0] \<and>
   operation (checkProjectIfFileChanged scenarioHash scenarioDocs ''a.php'' None init)
     = Some \<lparr>check = 0, hashes = map_option scenarioHash \<circ> scenarioDocs\<rparr>"
  by (simp add: checkProjectIfFileChanged_def checkProject_def checkShared_prep_def init_def)

text \<open>
  Claim C4, amended: when an operation is active, a call of
  \<open>checkProjectIfFileChanged\<close> with content \<open>undefined\<close> starts no check and leaves
  the manager unchanged; when none is active it delegates to \<open>checkProject\<close>.
\<close>

theorem undefined_content_with_active_operation:
  "(operation s \<noteq> None \<longrightarrow>
      checkProjectIfFileChanged basicHash docs uri None s = s) \<and>
   (operation s = None \<longrightarrow>
      checkProjectIfFileChanged basicHash docs uri None s = checkProject basicHash docs s)"
  by (auto simp: checkProjectIfFileChanged_def)

theorem undefined_content_with_active_operation_witness:
  "operation (checkProject scenarioHash scenarioDocs init) \<noteq> None \<and>
   checkProjectIfFileChanged scenarioHash scenarioDocs ''a.php'' None
       (checkProject scenarioHash scenarioDocs init)
     = checkProject scenarioHash scenarioDocs init \<and>
   operation init = None \<and>
   checkProjectIfFileChanged scenarioHash scenarioDocs ''a.php'' None init
     = checkProject scenarioHash scenarioDocs init"
proof -
  have a: "operation (checkProject scenarioHash scenarioDocs init) \<noteq> None"
    by (simp add: checkProject_def checkShared_prep_def init_def)
  have n: "operation init = None" by (simp add: init_def)
  from undefined_content_with_active_operation
         [of "checkProject scenarioHash scenarioDocs init" scenarioHash scenarioDocs "''a.php''"]
       undefined_content_with_active_operation [of init scenarioHash scenarioDocs "''a.php''"]
       a n
  show ?thesis by blast
qed

text \<open>
  Claim C8: \<open>dispose\<close> disposes the runner of the active operation, if there is
  one, and empties the slot; the promise map, the promise objects and the
  registered callbacks stay as they are, so a pending waiter sees what it saw.
  \<open>clear\<close> does the same and then tells the report provider to clear its
  report. Both are plain functions of the state: they run to their end without
  a suspension point, so nothing of the runner's teardown is waited for.
\<close>

theorem dispose_clear_frame:
  "operation (dispose s) = None \<and>
   effects (dispose s)
     = effects s @ (case operation s of Some op \<Rightarrow> [DisposeCheck (check op)] | None \<Rightarrow> []) \<and>
   filePromises (dispose s) = filePromises s \<and>
   promiseHeap (dispose s) = promiseHeap s \<and>
   thenCallbacks (dispose s) = thenCallbacks s \<and>
   getFilePromise_returned (dispose s) obj = getFilePromise_returned s obj \<and>
   operation (clear s) = None \<and>
   effects (clear s) = effects (dispose s) @ [ClearReport] \<and>
   filePromises (clear s) = filePromises s \<and>
   promiseHeap (clear s) = promiseHeap s \<and>
   thenCallbacks (clear s) = thenCallbacks s \<and>
   getFilePromise_returned (clear s) obj = getFilePromise_returned s obj"
  by (simp add: dispose_def clear_def getFilePromise_returned_def Let_def split: option.splits)

theorem dispose_clear_frame_witness:
  "operation (run scenarioHash [CheckProject scenarioDocs, Chain PROJECT_CHECK_STR 0] init) \<noteq> None \<and>
   operation (dispose (run scenarioHash [CheckProject scenarioDocs, Chain PROJECT_CHECK_STR 0] init))
     = None \<and>
   effects (dispose (run scenarioHash [CheckProject scenarioDocs, Chain PROJECT_CHECK_STR 0] init))
     = [NewCheck 0 ProjectCheck, LogCheckStarted 0, StatusStart 0, DisposeCheck 0] \<and>
   effects (clear (run scenarioHash [CheckProject scenarioDocs, Chain PROJECT_CHECK_STR 0] init))
     = [NewCheck 0 ProjectCheck, LogCheckStarted 0, StatusStart 0, DisposeCheck 0, ClearReport] \<and>
   filePromises (dispose (run scenarioHash [CheckProject scenarioDocs, Chain PROJECT_CHECK_STR 0] init))
       PROJECT_CHECK_STR = Some 0 \<and>
   filePromises (clear (run scenarioHash [CheckProject scenarioDocs, Chain PROJECT_CHECK_STR 0] init))
       PROJECT_CHECK_STR = Some 0"
proof -
  let ?s = "run scenarioHash [CheckProject scenarioDocs, Chain PROJECT_CHECK_STR 0] init"
  have o: "operation ?s = Some \<lparr>check = 0, hashes = map_option scenarioHash \<circ> scenarioDocs\<rparr>"
    by (simp add: run_def checkProject_def checkShared_prep_def withRecursivePromise_def init_def)
  have e: "effects ?s = [NewCheck 0 ProjectCheck, LogCheckStarted 0, StatusStart 0]"
    by (simp add: run_def checkProject_def checkShared_prep_def withRecursivePromise_def init_def)
  have f: "filePromises ?s PROJECT_CHECK_STR = Some 0"
    by (simp add: run_def checkProject_def checkShared_prep_def withRecursivePromise_def init_def)
  from dispose_clear_frame [of ?s] o e f show ?thesis by simp
qed

text \<open>
  Claim C5: when the timer fires before the check settles (the check settles
  after the deadline or never), the handler disposes the runner, the status bar
  operation is finished with \<open>KILLED\<close> and the result of the check is the killed
  result; the runner receives nothing but that disposal. The deadline is
  \<open>timeout\<close> for a file check and \<open>projectTimeout\<close> for a project check: a check
  that settles before it keeps its own result.
\<close>

theorem timeout_kills_check:
  "(promise = NeverSettles \<or>
    (\<exists>t r. promise = Settles t r \<and>
        (case ty of FileCheck \<Rightarrow> timeout config | ProjectCheck \<Rightarrow> projectTimeout config) < t)
    \<longrightarrow>
      fst (checkShared_run ty applyErrors config c promise s) = killed \<and>
      status (fst (checkShared_run ty applyErrors config c promise s)) = KILLED \<and>
      effects (snd (checkShared_run ty applyErrors config c promise s))
        = effects s @ [CheckStarted c applyErrors, DisposeCheck c, OnTimeoutNotice c,
                       StatusFinish c KILLED, StatusFinish c KILLED, LogCheckCompleted c]) \<and>
   (\<forall>t r. promise = Settles t r \<and>
        t < (case ty of FileCheck \<Rightarrow> timeout config | ProjectCheck \<Rightarrow> projectTimeout config)
    \<longrightarrow>
      fst (checkShared_run ty applyErrors config c promise s) = r \<and>
      effects (snd (checkShared_run ty applyErrors config c promise s))
        = effects s @ [CheckStarted c applyErrors, StatusFinish c (status r),
                       LogCheckCompleted c])"
  by (cases ty)
     (auto simp: checkShared_run_def withTimeout_def onTimeoutHandler_def killed_def Let_def
        split: running.splits)

theorem timeout_kills_check_witness:
  "fst (checkShared_run FileCheck True scenarioConfig 0 (Settles 3000 (ReturnResult SUCCESS (Some []))) init)
     = killed \<and>
   effects (snd (checkShared_run FileCheck True scenarioConfig 0
                   (Settles 3000 (ReturnResult SUCCESS (Some []))) init))
     = [CheckStarted 0 True, DisposeCheck 0, OnTimeoutNotice 0,
        StatusFinish 0 KILLED, StatusFinish 0 KILLED, LogCheckCompleted 0] \<and>
   fst (checkShared_run ProjectCheck True scenarioConfig 0
          (Settles 3000 (ReturnResult SUCCESS (Some []))) init)
     = ReturnResult SUCCESS (Some []) \<and>
   fst (checkShared_run ProjectCheck True scenarioConfig 0 NeverSettles init) = killed"
proof -
  let ?r = "ReturnResult SUCCESS (Some [])"
  have f: "(case FileCheck of FileCheck \<Rightarrow> timeout scenarioConfig
             | ProjectCheck \<Rightarrow> projectTimeout scenarioConfig) < 3000"
    by (simp add: scenarioConfig_def)
  have p: "3000 < (case ProjectCheck of FileCheck \<Rightarrow> timeout scenarioConfig
             | ProjectCheck \<Rightarrow> projectTimeout scenarioConfig)"
    by (simp add: scenarioConfig_def)
  from timeout_kills_check [where promise = "Settles 3000 ?r" and ty = FileCheck and config = scenarioConfig
      and applyErrors = True and c = 0 and s = init] f
  have 1: "fst (checkShared_run FileCheck True scenarioConfig 0 (Settles 3000 ?r) init) = killed"
    and 2: "effects (snd (checkShared_run FileCheck True scenarioConfig 0 (Settles 3000 ?r) init))
     = effects init @ [CheckStarted 0 True, DisposeCheck 0, OnTimeoutNotice 0,
        StatusFinish 0 KILLED, StatusFinish 0 KILLED, LogCheckCompleted 0]"
    by blast+
  from timeout_kills_check [where promise = "Settles 3000 ?r" and ty = ProjectCheck
      and config = scenarioConfig and applyErrors = True and c = 0 and s = init] p
  have 3: "fst (checkShared_run ProjectCheck True scenarioConfig 0 (Settles 3000 ?r) init) = ?r"
    by blast
  from timeout_kills_check [where promise = NeverSettles and ty = ProjectCheck
      and config = scenarioConfig and applyErrors = True and c = 0 and s = init]
  have 4: "fst (checkShared_run ProjectCheck True scenarioConfig 0 NeverSettles init) = killed"
    by blast
  show ?thesis using 1 2 3 4 by (simp add: init_def)
qed

lemma activeRunners_append:
  "activeRunners (xs @ ys) = foldl trackEffect (activeRunners xs) ys"
  by (simp add: activeRunners_def)

lemma foldl_trackEffect: "foldl trackEffect [] log = activeRunners log"
  by (simp add: activeRunners_def)

lemma singleFlight_append:
  "singleFlight alive (xs @ ys)
     = (singleFlight alive xs \<and> singleFlight (foldl trackEffect alive xs) ys)"
proof (induction xs arbitrary: alive)
  case Nil
  show ?case by (cases ys) auto
next
  case (Cons e xs)
  then show ?case by auto
qed

lemma singleFlight_take:
  "singleFlight alive log \<Longrightarrow> length (foldl trackEffect alive (take n log)) \<le> 1"
proof (induction log arbitrary: alive n)
  case Nil
  then show ?case by simp
next
  case (Cons e log)
  then show ?case by (cases n) auto
qed

lemma runnersInv_init: "runnersInv init"
  by (simp add: runnersInv_def init_def activeRunners_def)

lemma runnersInv_checkProject:
  assumes "runnersInv s"
  shows "runnersInv (checkProject basicHash docs s)"
    and "activeRunners (effects (checkProject basicHash docs s)) = [checksCreated s]"
  using assms
  by (auto simp: runnersInv_def checkProject_def checkShared_prep_def Let_def
        activeRunners_append singleFlight_append foldl_trackEffect split: option.splits)

lemma runnersInv_dispose: "runnersInv s \<Longrightarrow> runnersInv (dispose s)"
  by (auto simp: runnersInv_def dispose_def activeRunners_append singleFlight_append foldl_trackEffect
        split: option.splits)

lemma runnersInv_clear: "runnersInv s \<Longrightarrow> runnersInv (clear s)"
  using runnersInv_dispose [of s]
  by (auto simp: runnersInv_def clear_def Let_def activeRunners_append singleFlight_append foldl_trackEffect)

lemma runnersInv_run_check:
  "runnersInv s \<Longrightarrow> runnersInv (snd (checkShared_run ty applyErrors config c promise s))"
  by (auto simp: runnersInv_def checkShared_run_def withTimeout_def onTimeoutHandler_def
        Let_def activeRunners_append singleFlight_append foldl_trackEffect
        split: running.splits if_splits)

lemma runnersInv_step: "runnersInv s \<Longrightarrow> runnersInv (step basicHash a s)"
proof (cases a)
  case (CheckProject docs)
  assume "runnersInv s"
  then show ?thesis by (simp add: CheckProject runnersInv_checkProject)
next
  case (CheckProjectIfFileChanged docs uri fileContent)
  assume "runnersInv s"
  then show ?thesis
    by (simp add: CheckProjectIfFileChanged checkProjectIfFileChanged_def
        runnersInv_checkProject split: option.splits property.splits)
next
  case Clear
  assume "runnersInv s"
  then show ?thesis by (simp add: Clear runnersInv_clear)
next
  case Dispose
  assume "runnersInv s"
  then show ?thesis by (simp add: Dispose runnersInv_dispose)
next
  case (RunCheck ty applyErrors config c promise)
  assume "runnersInv s"
  then show ?thesis by (simp add: RunCheck runnersInv_run_check)
qed (auto simp: runnersInv_def withRecursivePromise_def settle_def thenCallback_def Let_def)

lemma runnersInv_run: "runnersInv (run basicHash acts init)"
proof (induction acts rule: rev_induct)
  case Nil
  show ?case by (simp add: run_Nil runnersInv_init)
next
  case (snoc a acts)
  then show ?case by (simp add: run_snoc runnersInv_step)
qed

text \<open>
  Claim C2: under every interleaving of the manager's operations, at every
  moment of the effect log at most one runner has been constructed and not yet
  disposed. When \<open>checkProject\<close> is called with an operation active, the effects
  it adds are the disposal of the previous runner followed by the construction
  of the new one, the new check is installed in the slot, and it is then the
  only runner alive.
\<close>

theorem one_active_runner:
  "length (activeRunners (take n (effects (run basicHash acts init)))) \<le> 1 \<and>
   (\<forall>op. operation (run basicHash acts init) = Some op \<longrightarrow>
      effects (checkProject basicHash docs (run basicHash acts init))
        = effects (run basicHash acts init) @
          [DisposeCheck (check op),
           NewCheck (checksCreated (run basicHash acts init)) ProjectCheck,
           LogCheckStarted (checksCreated (run basicHash acts init)),
           StatusStart (checksCreated (run basicHash acts init))] \<and>
      operation (checkProject basicHash docs (run basicHash acts init))
        = Some \<lparr>check = checksCreated (run basicHash acts init),
                hashes = map_option basicHash \<circ> docs\<rparr> \<and>
      activeRunners (effects (checkProject basicHash docs (run basicHash acts init)))
        = [checksCreated (run basicHash acts init)])"
proof -
  let ?s = "run basicHash acts init"
  have inv: "runnersInv ?s" by (rule runnersInv_run)
  then have "singleFlight [] (effects ?s)" by (simp add: runnersInv_def)
  then have 1: "length (activeRunners (take n (effects ?s))) \<le> 1"
    unfolding activeRunners_def by (rule singleFlight_take)
  have 2: "activeRunners (effects (checkProject basicHash docs ?s)) = [checksCreated ?s]"
    using inv by (rule runnersInv_checkProject)
  show ?thesis
    using 1 2 by (auto simp: checkProject_def checkShared_prep_def Let_def)
qed

theorem one_active_runner_witness:
  "operation (run scenarioHash [CheckProject scenarioDocs] init)
     = Some \<lparr>check = 0, hashes = map_option scenarioHash \<circ> scenarioDocs\<rparr> \<and>
   effects (checkProject scenarioHash scenarioDocs (run scenarioHash [CheckProject scenarioDocs] init))
     = [NewCheck 0 ProjectCheck, LogCheckStarted 0, StatusStart 0, DisposeCheck 0,
        NewCheck 1 ProjectCheck, LogCheckStarted 1, StatusStart 1] \<and>
   activeRunners (effects (checkProject scenarioHash scenarioDocs
       (run scenarioHash [CheckProject scenarioDocs] init))) = [1] \<and>
   length (activeRunners (take 4 (effects (run scenarioHash
       [CheckProject scenarioDocs, CheckProject scenarioDocs] init)))) \<le> 1"
proof -
  let ?s = "run scenarioHash [CheckProject scenarioDocs] init"
  have o: "operation ?s = Some \<lparr>check = 0, hashes = map_option scenarioHash \<circ> scenarioDocs\<rparr>"
    by (simp add: run_def checkProject_def checkShared_prep_def init_def)
  have e: "effects ?s = [NewCheck 0 ProjectCheck, LogCheckStarted 0, StatusStart 0]"
    by (simp add: run_def checkProject_def checkShared_prep_def init_def)
  have c: "checksCreated ?s = 1"
    by (simp add: run_def checkProject_def checkShared_prep_def init_def)
  from one_active_runner [of 4 scenarioHash "[CheckProject scenarioDocs]" scenarioDocs] o
  have 1: "effects (checkProject scenarioHash scenarioDocs ?s)
        = effects ?s @ [DisposeCheck 0, NewCheck (checksCreated ?s) ProjectCheck,
           LogCheckStarted (checksCreated ?s), StatusStart (checksCreated ?s)]"
    and 2: "activeRunners (effects (checkProject scenarioHash scenarioDocs ?s)) = [checksCreated ?s]"
    by auto
  have 3: "length (activeRunners (take 4 (effects (run scenarioHash
       [CheckProject scenarioDocs, CheckProject scenarioDocs] init)))) \<le> 1"
    using one_active_runner [of 4 scenarioHash
        "[CheckProject scenarioDocs, CheckProject scenarioDocs]" scenarioDocs]
    by blast
  show ?thesis using o 1 2 3 by (simp add: e c)
qed

section \<open>Properties of the promise chain\<close>

lemma length_resolvePromise [simp]: "length (resolvePromise p v heap) = length heap"
  by (simp add: resolvePromise_def)

lemma nth_resolvePromise:
  "resolvePromise p v heap ! q
     = (if q = p \<and> p < length heap \<and> heap ! p = Pending then Resolved v else heap ! q)"
  by (simp add: resolvePromise_def)

text \<open>The public operations and the check runs leave the promise chain alone.\<close>

lemma checkProject_gate:
  "filePromises (checkProject basicHash docs s) = filePromises s"
  "promiseHeap (checkProject basicHash docs s) = promiseHeap s"
  "thenCallbacks (checkProject basicHash docs s) = thenCallbacks s"
  "opState (checkProject basicHash docs s) = opState s"
  by (simp_all add: checkProject_def checkShared_prep_def Let_def split: option.splits)

lemma checkProjectIfFileChanged_gate:
  "filePromises (checkProjectIfFileChanged basicHash docs uri c s) = filePromises s"
  "promiseHeap (checkProjectIfFileChanged basicHash docs uri c s) = promiseHeap s"
  "thenCallbacks (checkProjectIfFileChanged basicHash docs uri c s) = thenCallbacks s"
  "opState (checkProjectIfFileChanged basicHash docs uri c s) = opState s"
  by (simp_all add: checkProjectIfFileChanged_def checkProject_gate
        split: option.splits property.splits)

lemma dispose_gate:
  "filePromises (dispose s) = filePromises s"
  "promiseHeap (dispose s) = promiseHeap s"
  "thenCallbacks (dispose s) = thenCallbacks s"
  "opState (dispose s) = opState s"
  by (simp_all add: dispose_def split: option.splits)

lemma clear_gate:
  "filePromises (clear s) = filePromises s"
  "promiseHeap (clear s) = promiseHeap s"
  "thenCallbacks (clear s) = thenCallbacks s"
  "opState (clear s) = opState s"
  by (simp_all add: clear_def Let_def dispose_gate)

lemma checkShared_run_gate:
  "filePromises (snd (checkShared_run ty a config c promise s)) = filePromises s"
  "promiseHeap (snd (checkShared_run ty a config c promise s)) = promiseHeap s"
  "thenCallbacks (snd (checkShared_run ty a config c promise s)) = thenCallbacks s"
  "opState (snd (checkShared_run ty a config c promise s)) = opState s"
  by (simp_all add: checkShared_run_def withTimeout_def onTimeoutHandler_def Let_def
        split: running.splits)


lemma gateWf_init: "gateWf init"
  by (simp add: gateWf_def init_def)

lemma chain_fields:
  "filePromises (withRecursivePromise uri operation' s)
     = (filePromises s)(uri \<mapsto> length (promiseHeap s))"
  "thenCallbacks (withRecursivePromise uri operation' s)
     = thenCallbacks s @ [(operation', length (promiseHeap s))]"
  "opState (withRecursivePromise uri operation' s) = opState s"
  "length (promiseHeap (withRecursivePromise uri operation' s)) = Suc (length (promiseHeap s))"
  "promiseHeap (withRecursivePromise uri operation' s) ! length (promiseHeap s) = Pending"
  by (simp_all add: withRecursivePromise_def Let_def nth_append split: option.splits)

lemma chain_nth:
  assumes "q < length (promiseHeap s)"
  shows "promiseHeap (withRecursivePromise uri operation' s) ! q
           = (if filePromises s uri = Some q \<and> promiseHeap s ! q = Pending
              then Resolved (Some (length (promiseHeap s))) else promiseHeap s ! q)"
  using assms
  by (simp add: withRecursivePromise_def Let_def nth_append nth_resolvePromise
        split: option.splits)

lemma gateWf_chain:
  assumes "gateWf s"
  shows "gateWf (withRecursivePromise uri operation' s)"
proof -
  let ?s' = "withRecursivePromise uri operation' s"
  let ?n = "length (promiseHeap s)"
  from assms have cb: "\<And>x q. (x, q) \<in> set (thenCallbacks s) \<Longrightarrow> q < ?n"
    and fp: "\<And>k p. filePromises s k = Some p \<Longrightarrow> p < ?n"
    and inj: "\<And>k k' p. filePromises s k = Some p \<Longrightarrow> filePromises s k' = Some p \<Longrightarrow> k = k'"
    and fwd: "\<And>p q. p < ?n \<Longrightarrow> promiseHeap s ! p = Resolved (Some q) \<Longrightarrow> p < q \<and> q < ?n"
    unfolding gateWf_def by blast+
  have 1: "q < length (promiseHeap ?s')" if "(x, q) \<in> set (thenCallbacks ?s')" for x q
    using that cb [of x q] by (auto simp: chain_fields)
  have 2: "p < length (promiseHeap ?s')" if "filePromises ?s' k = Some p" for k p
    using that fp [of k p] by (auto simp: chain_fields split: if_splits)
  have 3: "k = k'" if "filePromises ?s' k = Some p" and "filePromises ?s' k' = Some p" for k k' p
    using that fp [of k p] fp [of k' p] inj [of k p k']
    by (auto simp: chain_fields split: if_splits)
  have 4: "p < q \<and> q < length (promiseHeap ?s')"
    if "p < length (promiseHeap ?s')" and "promiseHeap ?s' ! p = Resolved (Some q)" for p q
  proof (cases "p < ?n")
    case True
    with that(2) fwd [of p q] show ?thesis
      by (auto simp: chain_fields chain_nth split: if_splits)
  next
    case False
    with that(1) have "p = ?n" by (simp add: chain_fields)
    with that(2) show ?thesis by (simp add: chain_fields)
  qed
  show ?thesis
    unfolding gateWf_def using 1 2 3 4 by blast
qed

lemma thenCallback_fields:
  "filePromises (thenCallback p s) = filePromises s"
  "thenCallbacks (thenCallback p s) = thenCallbacks s"
  "opState (thenCallback p s) = opState s"
  "length (promiseHeap (thenCallback p s)) = length (promiseHeap s)"
  by (simp_all add: thenCallback_def)

lemma thenCallback_nth:
  "promiseHeap (thenCallback p s) ! q = promiseHeap s ! q \<or>
   q = p \<and> promiseHeap s ! q = Pending \<and> promiseHeap (thenCallback p s) ! q = Resolved None \<and>
   (\<exists>other. (other, p) \<in> set (thenCallbacks s) \<and> opState s other = Some True)"
proof (cases "list_ex (\<lambda>(operation', r). r = p \<and> opState s operation' = Some True)
                (thenCallbacks s)")
  case True
  then obtain other where "(other, p) \<in> set (thenCallbacks s)" and "opState s other = Some True"
    by (auto simp: list_ex_iff)
  then have "\<exists>other. (other, p) \<in> set (thenCallbacks s) \<and> opState s other = Some True"
    by blast
  with True show ?thesis
    by (simp add: thenCallback_def nth_resolvePromise)
next
  case False
  then show ?thesis by (simp add: thenCallback_def)
qed

lemma gateWf_thenCallback:
  assumes "gateWf s"
  shows "gateWf (thenCallback p s)"
proof -
  let ?n = "length (promiseHeap s)"
  from assms have fwd: "\<And>r q. r < ?n \<Longrightarrow> promiseHeap s ! r = Resolved (Some q) \<Longrightarrow> r < q \<and> q < ?n"
    unfolding gateWf_def by blast
  have 4: "r < q \<and> q < ?n"
    if "r < ?n" and "promiseHeap (thenCallback p s) ! r = Resolved (Some q)" for r q
    using thenCallback_nth [of p s r] that fwd [of r q] by auto
  from assms show ?thesis
    unfolding gateWf_def thenCallback_fields using 4 by blast
qed

lemma settle_fields:
  "filePromises (settle other ok s) = filePromises s"
  "promiseHeap (settle other ok s) = promiseHeap s"
  "thenCallbacks (settle other ok s) = thenCallbacks s"
  by (simp_all add: settle_def)

lemma gateWf_same:
  assumes "gateWf s" and "filePromises s' = filePromises s"
    and "promiseHeap s' = promiseHeap s" and "thenCallbacks s' = thenCallbacks s"
  shows "gateWf s'"
  using assms(1) unfolding gateWf_def assms(2,3,4) .

lemma gateWf_step:
  assumes "gateWf s"
  shows "gateWf (step basicHash a s)"
proof (cases a)
  case (CheckProject docs)
  from assms show ?thesis unfolding CheckProject step.simps
    by (rule gateWf_same) (rule checkProject_gate)+
next
  case (CheckProjectIfFileChanged docs uri fileContent)
  from assms show ?thesis unfolding CheckProjectIfFileChanged step.simps
    by (rule gateWf_same) (rule checkProjectIfFileChanged_gate)+
next
  case Clear
  from assms show ?thesis unfolding Clear step.simps
    by (rule gateWf_same) (rule clear_gate)+
next
  case Dispose
  from assms show ?thesis unfolding Dispose step.simps
    by (rule gateWf_same) (rule dispose_gate)+
next
  case (RunCheck ty applyErrors config c promise)
  from assms show ?thesis unfolding RunCheck step.simps
    by (rule gateWf_same) (rule checkShared_run_gate)+
next
  case (Chain uri operation')
  from assms show ?thesis unfolding Chain step.simps by (rule gateWf_chain)
next
  case (Fulfil other)
  from assms show ?thesis unfolding Fulfil step.simps
    by (rule gateWf_same) (rule settle_fields)+
next
  case (Reject other)
  from assms show ?thesis unfolding Reject step.simps
    by (rule gateWf_same) (rule settle_fields)+
next
  case (ThenCallback p)
  from assms show ?thesis unfolding ThenCallback step.simps by (rule gateWf_thenCallback)
qed

lemma gateWf_run: "gateWf s \<Longrightarrow> gateWf (run basicHash acts s)"
  by (induction acts arbitrary: s) (simp_all add: run_Nil run_Cons gateWf_step)

lemma gateWf_D:
  assumes "gateWf s"
  shows "(other, q) \<in> set (thenCallbacks s) \<Longrightarrow> q < length (promiseHeap s)"
    and "filePromises s k = Some p \<Longrightarrow> p < length (promiseHeap s)"
    and "filePromises s k = Some p \<Longrightarrow> filePromises s k' = Some p \<Longrightarrow> k = k'"
    and "p < length (promiseHeap s) \<Longrightarrow> promiseHeap s ! p = Resolved (Some q)
           \<Longrightarrow> p < q \<and> q < length (promiseHeap s)"
  using assms unfolding gateWf_def by blast+







lemma chained_Nil [simp]: "chained uri [] = []"
  by (simp add: chained_def map_filter_simps)








lemma awaitLoop_fuel:
  assumes "gateWf s" and "p < length (promiseHeap s)" and "length (promiseHeap s) - p \<le> fuel"
  shows "awaitLoop fuel (promiseHeap s) p \<noteq> None"
  using assms(2,3)
proof (induction fuel arbitrary: p)
  case 0
  then show ?case by simp
next
  case (Suc fuel)
  show ?case
  proof (cases "promiseHeap s ! p")
    case Pending
    with Suc.prems show ?thesis by simp
  next
    case (Resolved v)
    show ?thesis
    proof (cases v)
      case None
      with Resolved Suc.prems show ?thesis by simp
    next
      case (Some q)
      with Resolved Suc.prems(1) gateWf_D(4) [OF assms(1), of p q]
      have "p < q" and "q < length (promiseHeap s)"
        by simp_all
      with Suc.prems Suc.IH [of q] Resolved Some show ?thesis by simp
    qed
  qed
qed






lemma awaitLoop_total:
  assumes "p < length (promiseHeap (run basicHash acts init))"
  shows "awaitLoop (length (promiseHeap (run basicHash acts init)))
           (promiseHeap (run basicHash acts init)) p \<noteq> None"
proof -
  have "gateWf (run basicHash acts init)" by (simp add: gateWf_run gateWf_init)
  then show ?thesis using assms by (rule awaitLoop_fuel) simp
qed


end
